theory Spec2Isabelle
  imports Main "HOL-Library.Sublist"
begin

section \<open>Python values used by alos2\_proc.py\<close>

text \<open>
  File names and shell commands are Python \<open>str\<close> values, modelled as \<open>string\<close>: a list of
  characters whose code points lie below 256.  Python integers are \<open>int\<close>.
\<close>

subsection \<open>\<open>str(year)\<close>\<close>

definition digit_char :: "nat \<Rightarrow> char" where
  "digit_char d = ''0123456789'' ! (d mod 10)"

fun str_nat :: "nat \<Rightarrow> string" where
  "str_nat n = (if n < 10 then [digit_char n] else str_nat (n div 10) @ [digit_char (n mod 10)])"

declare str_nat.simps [simp del]

definition str_int :: "int \<Rightarrow> string" where
  "str_int i = (if i < 0 then CHR ''-'' # str_nat (nat (- i)) else str_nat (nat i))"

subsection \<open>\<open>str.split\<close>, \<open>str.strip\<close>, \<open>str.join\<close>\<close>

text \<open>\<open>s.split(c)\<close> for a one-character separator: never empty, one more piece than separators.\<close>

fun split_on :: "char \<Rightarrow> string \<Rightarrow> string list" where
  "split_on c [] = [[]]"
| "split_on c (x # xs) =
     (if x = c then [] # split_on c xs
      else (case split_on c xs of
              [] \<Rightarrow> [[x]]
            | p # ps \<Rightarrow> (x # p) # ps))"

text \<open>\<open>s.strip(c)\<close>: drops every leading and every trailing occurrence of the character.\<close>

definition strip :: "char \<Rightarrow> string \<Rightarrow> string" where
  "strip c s = rev (dropWhile (\<lambda>x. x = c) (rev (dropWhile (\<lambda>x. x = c) s)))"

text \<open>\<open>sep.join(xs)\<close>.\<close>

fun join :: "string \<Rightarrow> string list \<Rightarrow> string" where
  "join sep [] = []"
| "join sep [x] = x"
| "join sep (x # y # ys) = x @ sep @ join sep (y # ys)"

subsection \<open>\<open>pathlib.Path\<close> on a POSIX host\<close>

text \<open>
  A path is its root (\<open>''''\<close>, \<open>''/''\<close>, or \<open>''//''\<close> for exactly two leading slashes) and its
  components; empty components and \<open>.\<close> components are dropped when the path is built.
\<close>

record pure_path =
  root :: string
  parts :: "string list"

definition path_root :: "string \<Rightarrow> string" where
  "path_root s =
     (if take 2 s = ''//'' \<and> take 3 s \<noteq> ''///'' then ''//''
      else if take 1 s = ''/'' then ''/''
      else '''')"

definition path_parts :: "string \<Rightarrow> string list" where
  "path_parts s = filter (\<lambda>p. p \<noteq> [] \<and> p \<noteq> ''.'') (split_on CHR ''/'' s)"

definition Path :: "string \<Rightarrow> pure_path" where
  "Path s = \<lparr>root = path_root s, parts = path_parts s\<rparr>"

text \<open>\<open>p / s\<close>: an absolute right operand replaces the left one.\<close>

definition path_div :: "pure_path \<Rightarrow> string \<Rightarrow> pure_path" where
  "path_div p s =
     (if path_root s \<noteq> [] then Path s
      else \<lparr>root = root p, parts = parts p @ path_parts s\<rparr>)"

text \<open>\<open>str(p)\<close>, which is also what an f-string inserts.\<close>

definition path_str :: "pure_path \<Rightarrow> string" where
  "path_str p =
     (if root p = [] \<and> parts p = [] then ''.''
      else root p @ join ''/'' (parts p))"

text \<open>\<open>p.name\<close>: the last component, or the empty string when there is none.\<close>

definition path_name :: "pure_path \<Rightarrow> string" where
  "path_name p = (if parts p = [] then [] else last (parts p))"

section \<open>The archive name pattern\<close>

text \<open>
  \<open>re.compile(r'^[N|S]{1}\w{2}[E|W]{1}\w{3}_\w{2}_MOS')\<close>.  Every item of the pattern
  consumes exactly one character, so the pattern is a list of character classes and
  \<open>pattern.match\<close>, which anchors at the start of the name only, succeeds exactly when the
  name is long enough and its characters are in the classes, one by one.

  Inside brackets \<open>|\<close> is an ordinary character: \<open>[N|S]\<close> is the set of \<open>N\<close>, \<open>|\<close> and
  \<open>S\<close>.  \<open>\w\<close> on a \<open>str\<close> pattern is a Unicode alphanumeric or the underscore; below 256
  those are the ASCII letters and digits, the underscore, and the code points listed in
  \<open>is_word_char\<close>.
\<close>

definition is_word_char :: "char \<Rightarrow> bool" where
  "is_word_char c =
     (let n = (of_char c :: nat) in
        (48 \<le> n \<and> n \<le> 57) \<or> (65 \<le> n \<and> n \<le> 90) \<or> n = 95 \<or> (97 \<le> n \<and> n \<le> 122)
        \<or> n = 170 \<or> n = 178 \<or> n = 179 \<or> n = 181 \<or> n = 185 \<or> n = 186
        \<or> (188 \<le> n \<and> n \<le> 190) \<or> (192 \<le> n \<and> n \<le> 214) \<or> (216 \<le> n \<and> n \<le> 246)
        \<or> 248 \<le> n)"

type_synonym char_class = "char \<Rightarrow> bool"

definition one_of :: "string \<Rightarrow> char_class" where
  "one_of cs c = (c \<in> set cs)"

definition lit :: "char \<Rightarrow> char_class" where
  "lit a c = (c = a)"

definition tarfile_pattern :: "char_class list" where
  "tarfile_pattern =
     replicate 1 (one_of ''N|S'') @ replicate 2 is_word_char
     @ replicate 1 (one_of ''E|W'') @ replicate 3 is_word_char
     @ [lit CHR ''_''] @ replicate 2 is_word_char @ [lit CHR ''_'']
     @ map lit ''MOS''"

fun match_classes :: "char_class list \<Rightarrow> string \<Rightarrow> bool" where
  "match_classes [] s = True"
| "match_classes (p # ps) [] = False"
| "match_classes (p # ps) (c # cs) = (p c \<and> match_classes ps cs)"

definition tarfile_pattern_match :: "string \<Rightarrow> bool" where
  "tarfile_pattern_match s = match_classes tarfile_pattern s"

text \<open>
  The pattern as the specification words it: a leading N or S, two digits, E or W, three
  digits, an underscore, two digits, an underscore, \<open>MOS\<close>, then anything.
\<close>

definition is_digit :: "char \<Rightarrow> bool" where
  "is_digit c = (c \<in> set ''0123456789'')"

definition spec_pattern :: "char_class list" where
  "spec_pattern =
     [one_of ''NS''] @ replicate 2 is_digit @ [one_of ''EW''] @ replicate 3 is_digit
     @ [lit CHR ''_''] @ replicate 2 is_digit @ [lit CHR ''_''] @ map lit ''MOS''"

definition spec_pattern_match :: "string \<Rightarrow> bool" where
  "spec_pattern_match s = match_classes spec_pattern s"

section \<open>The filtering loop of \<open>build_vrt\<close>\<close>

text \<open>
  \<^verbatim>\<open>
  for tarfile in tarfile_list:
      if not tarfile_pattern.match(tarfile):
          tarfile_list.remove(tarfile)
  \<close>
  The list is changed while it is iterated.  Python's list iterator keeps an index: each
  round it stops when the index has reached the current length, and otherwise reads the
  element at the index and advances.  \<open>list.remove\<close> deletes the first element equal to
  its argument, which is \<open>remove1\<close>.
\<close>

function filter_loop :: "nat \<Rightarrow> string list \<Rightarrow> string list" where
  "filter_loop i tarfile_list =
     (if i < length tarfile_list then
        (let tarfile = tarfile_list ! i in
           if \<not> tarfile_pattern_match tarfile
           then filter_loop (i + 1) (remove1 tarfile tarfile_list)
           else filter_loop (i + 1) tarfile_list)
      else tarfile_list)"
  by pat_completeness auto
termination
  by (relation "measure (\<lambda>(i, xs). length xs - i)") (auto simp: length_remove1)

declare filter_loop.simps [simp del]

definition filter_tarfiles :: "string list \<Rightarrow> string list" where
  "filter_tarfiles tarfile_list = filter_loop 0 tarfile_list"

section \<open>Layers, sources and the outside world\<close>

datatype layer = HH | HV | INC | DOY

text \<open>The key of a layer, as the f-strings print it.\<close>

fun layer_key :: "layer \<Rightarrow> string" where
  "layer_key HH = ''HH''"
| "layer_key HV = ''HV''"
| "layer_key INC = ''INC''"
| "layer_key DOY = ''DOY''"

fun layer_suffix :: "layer \<Rightarrow> string" where
  "layer_suffix HH = ''sl_HH''"
| "layer_suffix HV = ''sl_HV''"
| "layer_suffix INC = ''linci''"
| "layer_suffix DOY = ''date''"

text \<open>
  \<open>main\<close> hands \<open>build_vrt\<close> either a \<open>Path\<close> (local source) or a \<open>str\<close> (object-store
  source); \<open>build_vrt\<close> tells them apart with \<open>isinstance\<close>.
\<close>

datatype source = PathSrc pure_path | StrSrc string

text \<open>What \<open>f'{src}'\<close> inserts.\<close>

fun src_str :: "source \<Rightarrow> string" where
  "src_str (PathSrc p) = path_str p"
| "src_str (StrSrc s) = s"

text \<open>The three components of \<open>urlparse\<close>'s result that the script reads.\<close>

record url =
  scheme :: string
  netloc :: string
  path :: string

text \<open>
  Everything the script asks of its host is a parameter: the exit status and the decoded
  standard-output lines of a shell command, whether a path is a directory, and
  \<open>urllib.parse.urlparse\<close> (\<open>None\<close> when it raises \<open>ValueError\<close>).
\<close>

record env =
  run :: "string \<Rightarrow> nat \<times> string list"
  is_dir :: "pure_path \<Rightarrow> bool"
  urlparse :: "string \<Rightarrow> url option"

datatype error =
    Exception string
  | CalledProcessError string
  | ValueError

section \<open>\<open>build_vrt\<close>\<close>

definition yy :: "int \<Rightarrow> string" where
  "yy year = drop 2 (str_int year)"

definition postfix :: "int \<Rightarrow> string" where
  "postfix year = (if year < 2014 then [] else ''F02DAR'')"

definition suffix_ext :: "int \<Rightarrow> string" where
  "suffix_ext year = (if year < 2019 then [] else ''.tif'')"

definition ls_cmd :: "source \<Rightarrow> string" where
  "ls_cmd src =
     (let ls_cmd = ''ls '' @ src_str src @ ''/*.tar.gz''
      in case src of StrSrc s \<Rightarrow> ''gsutil '' @ ls_cmd | PathSrc p \<Rightarrow> ls_cmd)"

text \<open>\<open>tarfile.split('_')[0]\<close>; \<open>split_on\<close> never returns the empty list.\<close>

definition tile_of :: "string \<Rightarrow> string" where
  "tile_of tarfile = hd (split_on CHR ''_'' tarfile)"

text \<open>The member name inside the archive, the tail of both f-strings.\<close>

definition member_name :: "int \<Rightarrow> string \<Rightarrow> layer \<Rightarrow> string" where
  "member_name year tarfile layer =
     tile_of tarfile @ ''_'' @ yy year @ ''_'' @ layer_suffix layer @ ''_''
     @ postfix year @ suffix_ext year"

definition member_path :: "env \<Rightarrow> int \<Rightarrow> source \<Rightarrow> string \<Rightarrow> layer \<Rightarrow> error + string" where
  "member_path env year src tarfile layer =
     (case src of
        PathSrc p \<Rightarrow>
          Inr (''/vsitar/'' @ path_str p @ ''/'' @ tarfile @ ''/'' @ member_name year tarfile layer)
      | StrSrc s \<Rightarrow>
          (case urlparse env s of
             None \<Rightarrow> Inl ValueError
           | Some u \<Rightarrow>
               (let bucket = netloc u; prefix = strip CHR ''/'' (path u)
                in Inr (''/vsitar/vsis3/'' @ bucket @ ''/'' @ prefix @ ''/'' @ tarfile @ ''/''
                        @ member_name year tarfile layer))))"

text \<open>The inner loop: one member path per archive, in order; an exception ends it.\<close>

fun tif_list :: "env \<Rightarrow> int \<Rightarrow> source \<Rightarrow> layer \<Rightarrow> string list \<Rightarrow> error + string list" where
  "tif_list env year src layer [] = Inr []"
| "tif_list env year src layer (tarfile # rest) =
     (case member_path env year src tarfile layer of
        Inl e \<Rightarrow> Inl e
      | Inr tif \<Rightarrow>
          (case tif_list env year src layer rest of
             Inl e \<Rightarrow> Inl e
           | Inr tifs \<Rightarrow> Inr (tif # tifs)))"

definition vrt_0 :: "layer \<Rightarrow> string" where
  "vrt_0 layer = path_str (Path (layer_key layer @ ''_0.vrt''))"

definition vrt_1 :: "layer \<Rightarrow> string" where
  "vrt_1 layer = path_str (Path (layer_key layer @ ''_1.vrt''))"

definition buildvrt_cmd :: "layer \<Rightarrow> string list \<Rightarrow> string" where
  "buildvrt_cmd layer tifs = ''gdalbuildvrt -overwrite '' @ vrt_0 layer @ '' '' @ join '' '' tifs"

text \<open>
  The command string that the last statement of the loop body assigns to \<open>cmd\<close>.
\<close>

definition translate_cmd :: "layer \<Rightarrow> string" where
  "translate_cmd layer =
     (if layer \<in> set [HH, HV, INC]
      then ''gdal_translate -ot Float32 '' @ vrt_0 layer @ '' '' @ vrt_1 layer
      else ''gdal_translate -ot Int16 '' @ vrt_0 layer @ '' '' @ vrt_1 layer)"

text \<open>
  The loop over the layers.  The result is the list of shell commands that were executed,
  in order, and the outcome.  \<open>subprocess.check_call\<close> raises on a non-zero exit status.
  The body ends by assigning the conversion command to \<open>cmd\<close>; no statement after the
  assignment passes \<open>cmd\<close> to \<open>subprocess\<close>, so the assignment adds nothing to the list.
\<close>

fun build_layers ::
  "env \<Rightarrow> int \<Rightarrow> source \<Rightarrow> string list \<Rightarrow> layer list \<Rightarrow> string list \<times> (error + unit)" where
  "build_layers env year src tarfile_list [] = ([], Inr ())"
| "build_layers env year src tarfile_list (layer # rest) =
     (case tif_list env year src layer tarfile_list of
        Inl e \<Rightarrow> ([], Inl e)
      | Inr tifs \<Rightarrow>
          (let cmd = buildvrt_cmd layer tifs in
             if fst (run env cmd) \<noteq> 0 then ([cmd], Inl (CalledProcessError cmd))
             else
               (let cmd' = translate_cmd layer;
                    (log, r) = build_layers env year src tarfile_list rest
                in (cmd # log, r))))"

text \<open>
  \<open>subprocess.check_output\<close> raises on a non-zero exit status; otherwise its output is
  decoded and split into lines, and each line is reduced to its last path component.
\<close>

definition build_vrt :: "env \<Rightarrow> int \<Rightarrow> source \<Rightarrow> string list \<times> (error + unit)" where
  "build_vrt env year src =
     (let cmd = ls_cmd src; (status, lines) = run env cmd in
        if status \<noteq> 0 then ([cmd], Inl (CalledProcessError cmd))
        else
          (let tarfile_list = filter_tarfiles (map (\<lambda>p. path_name (Path p)) lines) in
             if tarfile_list = [] then
               ([cmd], Inl (Exception (''No .tar.gz files found under '' @ src_str src @ ''/''
                                        @ str_int year @ ''/tarfiles/.'')))
             else
               (let (log, r) = build_layers env year src tarfile_list [HH, HV, INC, DOY]
                in (cmd # log, r))))"

section \<open>\<open>main\<close>\<close>

text \<open>The parsed command line: four positional arguments.\<close>

record args =
  arg_tiles :: string
  arg_year :: int
  arg_src :: string
  arg_dst :: string

definition is_object_store :: "url \<Rightarrow> bool" where
  "is_object_store u = (scheme u = ''s3'' \<or> scheme u = ''gs'')"

definition remote_src :: "url \<Rightarrow> int \<Rightarrow> string" where
  "remote_src u year =
     scheme u @ ''://'' @ netloc u @ ''/'' @ strip CHR ''/'' (path u) @ ''/''
     @ str_int year @ ''/tarfiles''"

definition local_src :: "string \<Rightarrow> int \<Rightarrow> pure_path" where
  "local_src s year = path_div (Path s) (str_int year @ ''/tarfiles'')"

definition remote_dst :: "url \<Rightarrow> int \<Rightarrow> string" where
  "remote_dst u year =
     scheme u @ ''://'' @ netloc u @ ''/'' @ strip CHR ''/'' (path u) @ ''/'' @ str_int year"

definition local_dst :: "string \<Rightarrow> int \<Rightarrow> pure_path" where
  "local_dst s year = path_div (Path s) (str_int year)"

text \<open>The block under \<open># Check src\<close>: the commands executed and the derived source.\<close>

definition check_src :: "env \<Rightarrow> args \<Rightarrow> string list \<times> (error + source)" where
  "check_src env a =
     (case urlparse env (arg_src a) of
        None \<Rightarrow> ([], Inl ValueError)
      | Some u \<Rightarrow>
          if is_object_store u then
            (let src = remote_src u (arg_year a); cmd = ''gsutil ls '' @ src in
               if fst (run env cmd) \<noteq> 0 then ([cmd], Inl (CalledProcessError cmd))
               else ([cmd], Inr (StrSrc src)))
          else
            (let src = local_src (arg_src a) (arg_year a) in
               if \<not> is_dir env src
               then ([], Inl (Exception (arg_src a @ '' is not a valid directory path'')))
               else ([], Inr (PathSrc src))))"

text \<open>The block under \<open># Check dst\<close>.\<close>

definition check_dst :: "env \<Rightarrow> args \<Rightarrow> string list \<times> (error + source)" where
  "check_dst env a =
     (case urlparse env (arg_dst a) of
        None \<Rightarrow> ([], Inl ValueError)
      | Some u \<Rightarrow>
          if is_object_store u then
            (let dst = remote_dst u (arg_year a); cmd = ''gsutil ls '' @ dst in
               if fst (run env cmd) \<noteq> 0 then ([cmd], Inl (CalledProcessError cmd))
               else ([cmd], Inr (StrSrc dst)))
          else
            (let dst = local_dst (arg_dst a) (arg_year a) in
               if \<not> is_dir env dst
               then ([], Inl (Exception (arg_dst a @ '' is not a valid directory path'')))
               else ([], Inr (PathSrc dst))))"

text \<open>
  \<open>main\<close> after argument parsing: check the source, check the destination, then call
  \<open>build_vrt(args.year, src)\<close>.  \<open>warp_to_tiles\<close> has no call site.
\<close>

definition main :: "env \<Rightarrow> args \<Rightarrow> string list \<times> (error + unit)" where
  "main env a =
     (case check_src env a of
        (log1, Inl e) \<Rightarrow> (log1, Inl e)
      | (log1, Inr src) \<Rightarrow>
          (case check_dst env a of
             (log2, Inl e) \<Rightarrow> (log1 @ log2, Inl e)
           | (log2, Inr dst) \<Rightarrow>
               (let (log3, r) = build_vrt env (arg_year a) src
                in (log1 @ log2 @ log3, r))))"

section \<open>Concrete hosts\<close>

text \<open>
  \<open>urlparse\<close> on the strings used below: a string that starts with \<open>s3://\<close> or \<open>gs://\<close>
  and has no \<open>?\<close>, \<open>#\<close>, bracket, blank or control character has that scheme, the text up
  to the next slash as its network location, and the rest as its path; a plain relative
  path without a colon has neither scheme nor network location.
\<close>

definition urlparse_simple :: "string \<Rightarrow> url option" where
  "urlparse_simple s =
     (if take 5 s = ''s3://'' \<or> take 5 s = ''gs://'' then
        Some \<lparr>scheme = take 2 s,
              netloc = takeWhile (\<lambda>c. c \<noteq> CHR ''/'') (drop 5 s),
              path = dropWhile (\<lambda>c. c \<noteq> CHR ''/'') (drop 5 s)\<rparr>
      else Some \<lparr>scheme = [], netloc = [], path = s\<rparr>)"

text \<open>
  A host on which every directory exists and every command succeeds; the listing of
  \<open>data/2015/tarfiles\<close> prints the given lines.
\<close>

definition host_local :: "string list \<Rightarrow> env" where
  "host_local listing =
     \<lparr>run = (\<lambda>c. if c = ''ls data/2015/tarfiles/*.tar.gz'' then (0, listing) else (0, [])),
      is_dir = (\<lambda>p. True),
      urlparse = urlparse_simple\<rparr>"

text \<open>A host on which every command succeeds and every \<open>*.tar.gz\<close> listing prints the given lines.\<close>

definition host_bucket :: "string list \<Rightarrow> env" where
  "host_bucket listing =
     \<lparr>run = (\<lambda>c. if suffix ''/*.tar.gz'' c then (0, listing) else (0, [])),
      is_dir = (\<lambda>p. True),
      urlparse = urlparse_simple\<rparr>"

text \<open>A host without any directory.\<close>

definition host_no_dirs :: env where
  "host_no_dirs = \<lparr>run = (\<lambda>c. (0, [])), is_dir = (\<lambda>p. False), urlparse = urlparse_simple\<rparr>"

text \<open>A host whose only directory is \<open>data/2015/tarfiles\<close>.\<close>

definition host_no_dst :: env where
  "host_no_dst =
     \<lparr>run = (\<lambda>c. (0, [])),
      is_dir = (\<lambda>p. path_str p = ''data/2015/tarfiles''),
      urlparse = urlparse_simple\<rparr>"

definition demo_args :: "string \<Rightarrow> args" where
  "demo_args s = \<lparr>arg_tiles = ''tiles.geojson'', arg_year = 2015, arg_src = s, arg_dst = ''out''\<rparr>"

section \<open>Properties of the filtering step\<close>

lemma filter_remove1_other:
  "\<not> P x \<Longrightarrow> filter P (remove1 x xs) = filter P xs"
  by (induction xs) auto

lemma filter_loop_keeps_matching:
  "filter tarfile_pattern_match (filter_loop i xs) = filter tarfile_pattern_match xs"
proof (induction i xs rule: filter_loop.induct)
  case (1 i xs)
  show ?case
  proof (cases "i < length xs")
    case False
    then show ?thesis by (simp add: filter_loop.simps)
  next
    case True
    show ?thesis
    proof (cases "tarfile_pattern_match (xs ! i)")
      case True
      with \<open>i < length xs\<close> "1.IH"(2) show ?thesis
        by (subst filter_loop.simps) simp
    next
      case False
      with \<open>i < length xs\<close> "1.IH"(1) show ?thesis
        by (subst filter_loop.simps) (simp add: filter_remove1_other)
    qed
  qed
qed

lemma filter_loop_subset: "set (filter_loop i xs) \<subseteq> set xs"
proof (induction i xs rule: filter_loop.induct)
  case (1 i xs)
  show ?case
  proof (cases "i < length xs")
    case False
    then show ?thesis by (simp add: filter_loop.simps)
  next
    case True
    show ?thesis
    proof (cases "tarfile_pattern_match (xs ! i)")
      case True
      with \<open>i < length xs\<close> "1.IH"(2) show ?thesis
        by (subst filter_loop.simps) simp
    next
      case False
      with \<open>i < length xs\<close> "1.IH"(1) [OF \<open>i < length xs\<close> refl False]
      have "set (filter_loop (i + 1) (remove1 (xs ! i) xs)) \<subseteq> set xs"
        using set_remove1_subset by fastforce
      with \<open>i < length xs\<close> False show ?thesis
        by (subst filter_loop.simps) simp
    qed
  qed
qed

lemma match_classes_mono:
  "list_all2 (\<lambda>p q. \<forall>c. p c \<longrightarrow> q c) ps qs \<Longrightarrow> match_classes ps s \<Longrightarrow> match_classes qs s"
proof (induction ps s arbitrary: qs rule: match_classes.induct)
  case (1 s)
  then show ?case by simp
next
  case (2 p ps)
  then show ?case by simp
next
  case (3 p ps c cs)
  then show ?case by (auto simp: list_all2_Cons1)
qed

lemma is_digit_word: "is_digit c \<Longrightarrow> is_word_char c"
  by (auto simp: is_digit_def is_word_char_def)

lemma spec_pattern_implies_code_pattern:
  "spec_pattern_match s \<Longrightarrow> tarfile_pattern_match s"
  unfolding spec_pattern_match_def tarfile_pattern_match_def
  by (erule match_classes_mono [rotated])
     (auto simp: spec_pattern_def tarfile_pattern_def one_of_def is_digit_word
                 numeral_2_eq_2 numeral_3_eq_3)

text \<open>
  Claim C1 (as amended).  The filtering step keeps every listed name that matches the
  pattern of the code, in listing order and as often as it is listed; in particular it
  keeps every listed name of the form the specification describes (N or S, two digits,
  E or W, three digits, underscore, two digits, \<open>_MOS\<close>).  Every name that is kept is a
  listed name.
\<close>

theorem filter_tarfiles_keeps_pattern_names:
  "filter tarfile_pattern_match (filter_tarfiles names) = filter tarfile_pattern_match names
   \<and> set (filter_tarfiles names) \<subseteq> set names
   \<and> (\<forall>n \<in> set names. spec_pattern_match n \<longrightarrow> n \<in> set (filter_tarfiles names))"
proof (intro conjI ballI impI)
  show keep: "filter tarfile_pattern_match (filter_tarfiles names)
              = filter tarfile_pattern_match names"
    by (simp add: filter_tarfiles_def filter_loop_keeps_matching)
  show "set (filter_tarfiles names) \<subseteq> set names"
    by (simp add: filter_tarfiles_def filter_loop_subset)
  fix n assume "n \<in> set names" and "spec_pattern_match n"
  then have "n \<in> set (filter tarfile_pattern_match names)"
    by (simp add: spec_pattern_implies_code_pattern)
  then have "n \<in> set (filter tarfile_pattern_match (filter_tarfiles names))"
    by (simp only: keep)
  then show "n \<in> set (filter_tarfiles names)"
    by simp
qed

theorem filter_tarfiles_keeps_pattern_names_witness:
  "''N00E010_15_MOS_F02DAR.tar.gz''
     \<in> set (filter_tarfiles [''README.tar.gz'', ''N00E010_15_MOS_F02DAR.tar.gz''])"
proof -
  have m: "spec_pattern_match ''N00E010_15_MOS_F02DAR.tar.gz''"
    by code_simp
  have i: "''N00E010_15_MOS_F02DAR.tar.gz''
             \<in> set [''README.tar.gz'', ''N00E010_15_MOS_F02DAR.tar.gz'']"
    by simp
  from filter_tarfiles_keeps_pattern_names
         [of "[''README.tar.gz'', ''N00E010_15_MOS_F02DAR.tar.gz'']"] m i
  show ?thesis by blast
qed

text \<open>
  The claim as the specification states it fails: a name with letters where the
  specification asks for digits matches \<open>\w\<close> and is kept.
\<close>

theorem filter_tarfiles_counterexample:
  "filter_tarfiles [''NabEcde_fg_MOS.tar.gz''] = [''NabEcde_fg_MOS.tar.gz'']
   \<and> \<not> spec_pattern_match ''NabEcde_fg_MOS.tar.gz''"
  by code_simp

text \<open>
  Removing from the list while iterating over it skips the name that follows a removed
  one: of two names that both fail the pattern of the code, the second is kept.
\<close>

lemma filter_tarfiles_skips_after_removal:
  "filter_tarfiles [''README.tar.gz'', ''notes.tar.gz''] = [''notes.tar.gz'']
   \<and> \<not> tarfile_pattern_match ''notes.tar.gz''"
  by code_simp

section \<open>Characters of the pieces of a member name\<close>

lemma digit_char_digit: "digit_char d \<in> set ''0123456789''"
  unfolding digit_char_def by (rule nth_mem) simp

lemma str_nat_digits: "set (str_nat n) \<subseteq> set ''0123456789''"
proof (induction n rule: str_nat.induct)
  case (1 n)
  show ?case
  proof (cases "n < 10")
    case True
    then show ?thesis using digit_char_digit [of n] by (subst str_nat.simps) simp
  next
    case False
    then show ?thesis using "1.IH" digit_char_digit [of "n mod 10"]
      by (subst str_nat.simps) simp
  qed
qed

lemma str_int_chars: "set (str_int i) \<subseteq> set ''-0123456789''"
proof (cases "i < 0")
  case True
  have "set (str_nat (nat (- i))) \<subseteq> set ''0123456789''" by (rule str_nat_digits)
  also have "\<dots> \<subseteq> set ''-0123456789''" by (simp add: subset_insertI2)
  finally show ?thesis using True by (simp add: str_int_def)
next
  case False
  have "set (str_nat (nat i)) \<subseteq> set ''0123456789''" by (rule str_nat_digits)
  also have "\<dots> \<subseteq> set ''-0123456789''" by (simp add: subset_insertI2)
  finally show ?thesis using False by (simp add: str_int_def)
qed

lemma yy_chars: "set (yy year) \<subseteq> set ''-0123456789''"
  unfolding yy_def
  by (rule subset_trans [OF set_drop_subset str_int_chars])

lemma word_char_plain: "is_word_char c \<Longrightarrow> c \<noteq> CHR ''.'' \<and> c \<noteq> CHR ''/''"
  by (auto simp: is_word_char_def)

lemma one_of_plain: "one_of ''N|S'' c \<or> one_of ''E|W'' c \<Longrightarrow> c \<noteq> CHR ''.'' \<and> c \<noteq> CHR ''/''"
  by (auto simp: one_of_def)

lemma split_on_nonempty: "split_on c s \<noteq> []"
  by (induction s) (auto split: list.splits)

lemma hd_split_on: "hd (split_on c s) = takeWhile (\<lambda>x. x \<noteq> c) s"
  by (induction s) (auto split: list.splits simp: split_on_nonempty)

lemma match_classes_split:
  "match_classes (ps @ lit c # qs) s \<Longrightarrow> \<forall>p \<in> set ps. \<forall>x. p x \<longrightarrow> Q x \<Longrightarrow>
   \<exists>a b. s = a @ c # b \<and> (\<forall>x \<in> set a. Q x)"
proof (induction ps arbitrary: s)
  case Nil
  then obtain b where "s = c # b"
    by (cases s) (auto simp: lit_def)
  then have "s = [] @ c # b \<and> (\<forall>x \<in> set []. Q x)" by simp
  then show ?case by blast
next
  case (Cons p ps)
  from Cons.prems(1) obtain x xs where s: "s = x # xs" and px: "p x"
    and rest: "match_classes (ps @ lit c # qs) xs"
    by (cases s) auto
  from Cons.prems(2) have all: "\<forall>p \<in> set ps. \<forall>x. p x \<longrightarrow> Q x" and qx: "Q x"
    using px by auto
  from Cons.IH [OF rest all] obtain a b where xs: "xs = a @ c # b" and qa: "\<forall>x \<in> set a. Q x"
    by blast
  from s xs qa qx have "s = (x # a) @ c # b \<and> (\<forall>y \<in> set (x # a). Q y)"
    by simp
  then show ?case by blast
qed

lemma tarfile_pattern_split:
  "tarfile_pattern =
     ([one_of ''N|S'', is_word_char, is_word_char, one_of ''E|W'',
       is_word_char, is_word_char, is_word_char]) @ lit CHR ''_'' #
     ([is_word_char, is_word_char, lit CHR ''_''] @ map lit ''MOS'')"
  by (simp add: tarfile_pattern_def numeral_2_eq_2 numeral_3_eq_3)

lemma takeWhile_before_sep:
  "set (takeWhile (\<lambda>x. x \<noteq> c) (a @ c # b)) \<subseteq> set a"
  by (induction a) auto

lemma tile_of_match_chars:
  assumes "tarfile_pattern_match t"
  shows "CHR ''.'' \<notin> set (tile_of t) \<and> CHR ''/'' \<notin> set (tile_of t)"
proof -
  let ?Q = "\<lambda>x. x \<noteq> CHR ''.'' \<and> x \<noteq> CHR ''/''"
  let ?ps = "[one_of ''N|S'', is_word_char, is_word_char, one_of ''E|W'',
       is_word_char, is_word_char, is_word_char]"
  from assms have m: "match_classes
     (?ps @ lit CHR ''_'' # ([is_word_char, is_word_char, lit CHR ''_''] @ map lit ''MOS'')) t"
    unfolding tarfile_pattern_match_def tarfile_pattern_split .
  have cls: "\<forall>p \<in> set ?ps. \<forall>x. p x \<longrightarrow> ?Q x"
    using word_char_plain one_of_plain by simp
  from match_classes_split [OF m cls]
  obtain a b where t: "t = a @ CHR ''_'' # b" and a: "\<forall>c \<in> set a. ?Q c"
    by blast
  have "set (tile_of t) \<subseteq> set a"
    unfolding tile_of_def hd_split_on t by (rule takeWhile_before_sep)
  with a show ?thesis by blast
qed

section \<open>Member paths\<close>

lemma member_path_suffix:
  "member_path env year src tarfile layer = Inr tif \<Longrightarrow>
   suffix (CHR ''/'' # member_name year tarfile layer) tif"
  by (cases src) (auto simp: member_path_def suffix_def Let_def split: option.splits)

lemma layer_suffix_chars: "CHR ''.'' \<notin> set (layer_suffix layer) \<and> CHR ''/'' \<notin> set (layer_suffix layer)"
  by (cases layer) simp_all

lemma member_name_plain:
  assumes "tarfile_pattern_match tarfile" and "year < 2019"
  shows "CHR ''.'' \<notin> set (member_name year tarfile layer)
       \<and> CHR ''/'' \<notin> set (member_name year tarfile layer)"
proof -
  have y: "CHR ''.'' \<notin> set (yy year) \<and> CHR ''/'' \<notin> set (yy year)"
    using yy_chars [of year] by auto
  have p: "CHR ''.'' \<notin> set (postfix year) \<and> CHR ''/'' \<notin> set (postfix year)"
    by (simp add: postfix_def)
  from assms(2) have e: "suffix_ext year = []"
    by (simp add: suffix_ext_def)
  from tile_of_match_chars [OF assms(1)] y p e layer_suffix_chars [of layer]
  show ?thesis by (simp add: member_name_def)
qed

text \<open>
  Claim C5.  For a year before 2014 the member path ends with the layer suffix and the
  separator, with no postfix after it; from 2014 on the fixed postfix \<open>F02DAR\<close> follows
  the separator (and the extension, if any, follows the postfix).
\<close>

theorem member_path_postfix:
  assumes "member_path env year src tarfile layer = Inr tif"
  shows "(year < 2014 \<longrightarrow>
            suffix (''_'' @ layer_suffix layer @ ''_'') tif \<and> \<not> suffix ''F02DAR'' tif)
       \<and> (2014 \<le> year \<longrightarrow>
            suffix (''_'' @ layer_suffix layer @ ''_F02DAR'' @ suffix_ext year) tif)"
  using member_path_suffix [OF assms]
  by (auto simp: suffix_def member_name_def postfix_def suffix_ext_def)

theorem member_path_postfix_witness:
  "suffix ''_sl_HH_''
     ''/vsitar/data/2010/tarfiles/N00E010_10_MOS.tar.gz/N00E010_10_sl_HH_''
   \<and> \<not> suffix ''F02DAR''
     ''/vsitar/data/2010/tarfiles/N00E010_10_MOS.tar.gz/N00E010_10_sl_HH_''
   \<and> suffix ''_sl_HH_F02DAR''
     ''/vsitar/data/2015/tarfiles/N00E010_15_MOS_F02DAR.tar.gz/N00E010_15_sl_HH_F02DAR''"
proof -
  have h1: "member_path host_no_dirs 2010 (PathSrc (Path ''data/2010/tarfiles''))
              ''N00E010_10_MOS.tar.gz'' HH
            = Inr ''/vsitar/data/2010/tarfiles/N00E010_10_MOS.tar.gz/N00E010_10_sl_HH_''"
    by code_simp
  have h2: "member_path host_no_dirs 2015 (PathSrc (Path ''data/2015/tarfiles''))
              ''N00E010_15_MOS_F02DAR.tar.gz'' HH
            = Inr ''/vsitar/data/2015/tarfiles/N00E010_15_MOS_F02DAR.tar.gz/N00E010_15_sl_HH_F02DAR''"
    by code_simp
  from member_path_postfix [OF h1] member_path_postfix [OF h2]
  show ?thesis by (simp add: suffix_ext_def)
qed

text \<open>
  Claim C6.  For a year before 2019 nothing is appended after the postfix: the member
  path does not end in \<open>.tif\<close>, and for an archive name that matches the pattern the
  member name contains no dot at all.  From 2019 on every member path ends in \<open>.tif\<close>.
\<close>

theorem member_path_extension:
  assumes "member_path env year src tarfile layer = Inr tif"
  shows "(year < 2019 \<longrightarrow>
            suffix (''_'' @ layer_suffix layer @ ''_'' @ postfix year) tif
          \<and> \<not> suffix ''.tif'' tif
          \<and> (tarfile_pattern_match tarfile \<longrightarrow>
                CHR ''.'' \<notin> set (member_name year tarfile layer)))
       \<and> (2019 \<le> year \<longrightarrow> suffix ''_F02DAR.tif'' tif)"
proof (intro conjI impI)
  assume "year < 2019"
  with member_path_suffix [OF assms]
  show "suffix (''_'' @ layer_suffix layer @ ''_'' @ postfix year) tif"
    by (auto simp: suffix_def member_name_def suffix_ext_def)
next
  assume "year < 2019"
  with member_path_suffix [OF assms]
  show "\<not> suffix ''.tif'' tif"
    by (auto simp: suffix_def member_name_def suffix_ext_def postfix_def split: if_splits)
next
  assume "year < 2019" and "tarfile_pattern_match tarfile"
  then show "CHR ''.'' \<notin> set (member_name year tarfile layer)"
    using member_name_plain by blast
next
  assume "2019 \<le> year"
  with member_path_suffix [OF assms]
  show "suffix ''_F02DAR.tif'' tif"
    by (auto simp: suffix_def member_name_def suffix_ext_def postfix_def)
qed

theorem member_path_extension_witness:
  "suffix ''_sl_HV_F02DAR''
     ''/vsitar/data/2015/tarfiles/N00E010_15_MOS_F02DAR.tar.gz/N00E010_15_sl_HV_F02DAR''
   \<and> \<not> suffix ''.tif''
     ''/vsitar/data/2015/tarfiles/N00E010_15_MOS_F02DAR.tar.gz/N00E010_15_sl_HV_F02DAR''
   \<and> CHR ''.'' \<notin> set (member_name 2015 ''N00E010_15_MOS_F02DAR.tar.gz'' HV)
   \<and> suffix ''_F02DAR.tif''
     ''/vsitar/data/2020/tarfiles/N00E010_20_MOS_F02DAR.tar.gz/N00E010_20_sl_HV_F02DAR.tif''"
proof -
  have h1: "member_path host_no_dirs 2015 (PathSrc (Path ''data/2015/tarfiles''))
              ''N00E010_15_MOS_F02DAR.tar.gz'' HV
            = Inr ''/vsitar/data/2015/tarfiles/N00E010_15_MOS_F02DAR.tar.gz/N00E010_15_sl_HV_F02DAR''"
    by code_simp
  have h2: "member_path host_no_dirs 2020 (PathSrc (Path ''data/2020/tarfiles''))
              ''N00E010_20_MOS_F02DAR.tar.gz'' HV
            = Inr ''/vsitar/data/2020/tarfiles/N00E010_20_MOS_F02DAR.tar.gz/N00E010_20_sl_HV_F02DAR.tif''"
    by code_simp
  have m: "tarfile_pattern_match ''N00E010_15_MOS_F02DAR.tar.gz''"
    by code_simp
  from member_path_extension [OF h1] member_path_extension [OF h2] m
  show ?thesis by (simp add: postfix_def)
qed

text \<open>
  Claim C10.  For a year before 2014 the member name is tile, two-digit year and layer
  suffix, each followed by an underscore, then the extension, which is empty for these
  years: the member path ends with the underscore that would separate the postfix.
\<close>

theorem member_name_pre_2014:
  assumes "year < 2014" and "member_path env year src tarfile layer = Inr tif"
  shows "member_name year tarfile layer
           = tile_of tarfile @ ''_'' @ yy year @ ''_'' @ layer_suffix layer @ ''_'' @ suffix_ext year
       \<and> suffix_ext year = []
       \<and> suffix (CHR ''/'' # tile_of tarfile @ ''_'' @ yy year @ ''_'' @ layer_suffix layer @ ''_'') tif"
  using member_path_suffix [OF assms(2)] assms(1)
  by (simp add: member_name_def postfix_def suffix_ext_def)

theorem member_name_pre_2014_witness:
  "member_name 2010 ''N00E010_10_MOS.tar.gz'' DOY = ''N00E010_10_date_''
   \<and> suffix ''/N00E010_10_date_''
        ''/vsitar/data/2010/tarfiles/N00E010_10_MOS.tar.gz/N00E010_10_date_''"
proof -
  have y: "(2010::int) < 2014" by simp
  have h: "member_path host_no_dirs 2010 (PathSrc (Path ''data/2010/tarfiles''))
              ''N00E010_10_MOS.tar.gz'' DOY
            = Inr ''/vsitar/data/2010/tarfiles/N00E010_10_MOS.tar.gz/N00E010_10_date_''"
    by code_simp
  have t: "tile_of ''N00E010_10_MOS.tar.gz'' = ''N00E010''" by code_simp
  have yy: "yy 2010 = ''10''" by code_simp
  from member_name_pre_2014 [OF y h] t yy
  show ?thesis by simp
qed

lemma check_src_object_store:
  assumes "urlparse env (arg_src a) = Some u" and "is_object_store u"
    and "check_src env a = (log, Inr src)"
  shows "src = StrSrc (remote_src u (arg_year a))"
  using assms by (auto simp: check_src_def Let_def split: if_splits)

text \<open>
  Claim C9.  When the source argument is an object-store URL, with scheme \<open>s3\<close> or
  \<open>gs\<close> alike, every member path starts with \<open>/vsitar/vsis3/\<close>, followed by the bucket
  of the derived source; it never starts with \<open>/vsitar/vsigs/\<close>.
\<close>

theorem object_store_member_path_vsis3:
  assumes "urlparse env (arg_src a) = Some u" and "is_object_store u"
    and "check_src env a = (log, Inr src)"
    and "member_path env year src tarfile layer = Inr tif"
  shows "(\<exists>v. urlparse env (remote_src u (arg_year a)) = Some v
            \<and> tif = ''/vsitar/vsis3/'' @ netloc v @ ''/'' @ strip CHR ''/'' (path v) @ ''/''
                    @ tarfile @ ''/'' @ member_name year tarfile layer)
       \<and> prefix ''/vsitar/vsis3/'' tif
       \<and> \<not> prefix ''/vsitar/vsigs/'' tif"
proof -
  from check_src_object_store [OF assms(1-3)]
  have src: "src = StrSrc (remote_src u (arg_year a))" .
  with assms(4) obtain v where v: "urlparse env (remote_src u (arg_year a)) = Some v"
    and tif: "tif = ''/vsitar/vsis3/'' @ netloc v @ ''/'' @ strip CHR ''/'' (path v) @ ''/''
                    @ tarfile @ ''/'' @ member_name year tarfile layer"
    by (auto simp: member_path_def Let_def split: option.splits)
  from tif have "prefix ''/vsitar/vsis3/'' tif" and "\<not> prefix ''/vsitar/vsigs/'' tif"
    by (simp_all add: prefix_def)
  with v tif show ?thesis by blast
qed

theorem object_store_member_path_vsis3_witness:
  "prefix ''/vsitar/vsis3/''
     ''/vsitar/vsis3/bucket/alos/2015/tarfiles/N00E010_15_MOS_F02DAR.tar.gz/N00E010_15_sl_HH_F02DAR''
   \<and> \<not> prefix ''/vsitar/vsigs/''
     ''/vsitar/vsis3/bucket/alos/2015/tarfiles/N00E010_15_MOS_F02DAR.tar.gz/N00E010_15_sl_HH_F02DAR''"
proof -
  let ?h = "host_bucket [''gs://bucket/alos/2015/tarfiles/N00E010_15_MOS_F02DAR.tar.gz'']"
  let ?a = "demo_args ''gs://bucket/alos''"
  let ?u = "\<lparr>scheme = ''gs'', netloc = ''bucket'', path = ''/alos''\<rparr>"
  have u: "urlparse ?h (arg_src ?a) = Some ?u" by code_simp
  have o: "is_object_store ?u" by code_simp
  have c: "check_src ?h ?a = ([''gsutil ls gs://bucket/alos/2015/tarfiles''],
                               Inr (StrSrc ''gs://bucket/alos/2015/tarfiles''))"
    by code_simp
  have m: "member_path ?h 2015 (StrSrc ''gs://bucket/alos/2015/tarfiles'')
             ''N00E010_15_MOS_F02DAR.tar.gz'' HH
           = Inr ''/vsitar/vsis3/bucket/alos/2015/tarfiles/N00E010_15_MOS_F02DAR.tar.gz/N00E010_15_sl_HH_F02DAR''"
    by code_simp
  from object_store_member_path_vsis3 [OF u o c m]
  show ?thesis by blast
qed

section \<open>Commands that a run executes\<close>

lemma build_layers_commands:
  "c \<in> set (fst (build_layers env year src ts ls)) \<Longrightarrow> prefix ''gdalbuildvrt '' c"
  by (induction ls arbitrary: c)
     (auto simp: Let_def buildvrt_cmd_def split: sum.splits if_splits prod.splits)

lemma build_vrt_commands:
  assumes "c \<in> set (fst (build_vrt env year src))"
  shows "c = ls_cmd src \<or> prefix ''gdalbuildvrt '' c"
proof -
  obtain status lines where r: "run env (ls_cmd src) = (status, lines)"
    by (cases "run env (ls_cmd src)")
  let ?ts = "filter_tarfiles (map (\<lambda>p. path_name (Path p)) lines)"
  obtain log res where b: "build_layers env year src ?ts [HH, HV, INC, DOY] = (log, res)"
    by (cases "build_layers env year src ?ts [HH, HV, INC, DOY]")
  from assms r b have "c = ls_cmd src \<or> c \<in> set log"
    by (auto simp: build_vrt_def Let_def simp del: build_layers.simps split: if_splits)
  moreover have "prefix ''gdalbuildvrt '' c" if "c \<in> set log"
    using that b build_layers_commands [of c env year src ?ts "[HH, HV, INC, DOY]"]
    by (simp del: build_layers.simps)
  ultimately show ?thesis by blast
qed

lemma ls_cmd_prefix: "prefix ''ls '' (ls_cmd src) \<or> prefix ''gsutil ls '' (ls_cmd src)"
  by (cases src) (simp_all add: ls_cmd_def)

lemma check_src_commands:
  "c \<in> set (fst (check_src env a)) \<Longrightarrow> prefix ''gsutil ls '' c"
  by (auto simp: check_src_def Let_def split: option.splits if_splits)

lemma check_dst_commands:
  "c \<in> set (fst (check_dst env a)) \<Longrightarrow> prefix ''gsutil ls '' c"
  by (auto simp: check_dst_def Let_def split: option.splits if_splits)

lemma main_commands:
  assumes "c \<in> set (fst (main env a))"
  shows "prefix ''ls '' c \<or> prefix ''gsutil ls '' c \<or> prefix ''gdalbuildvrt '' c"
proof -
  obtain log1 r1 where c1: "check_src env a = (log1, r1)"
    by (cases "check_src env a")
  obtain log2 r2 where c2: "check_dst env a = (log2, r2)"
    by (cases "check_dst env a")
  have p1: "prefix ''gsutil ls '' c" if "c \<in> set log1"
    using that c1 check_src_commands [of c env a] by simp
  have p2: "prefix ''gsutil ls '' c" if "c \<in> set log2"
    using that c2 check_dst_commands [of c env a] by simp
  show ?thesis
  proof (cases r1)
    case (Inl e)
    with assms c1 p1 show ?thesis by (simp add: main_def)
  next
    case src: (Inr src)
    show ?thesis
    proof (cases r2)
      case (Inl e)
      with assms c1 c2 src p1 p2 show ?thesis by (auto simp: main_def)
    next
      case (Inr dst)
      obtain log3 r3 where b: "build_vrt env (arg_year a) src = (log3, r3)"
        by (cases "build_vrt env (arg_year a) src")
      from assms c1 c2 src Inr b have "c \<in> set log1 \<or> c \<in> set log2 \<or> c \<in> set log3"
        by (auto simp: main_def)
      moreover have "c = ls_cmd src \<or> prefix ''gdalbuildvrt '' c" if "c \<in> set log3"
        using that b build_vrt_commands [of c env "arg_year a" src] by simp
      ultimately show ?thesis using p1 p2 ls_cmd_prefix [of src] by blast
    qed
  qed
qed

lemma main_never_converts:
  "c \<in> set (fst (main env a)) \<Longrightarrow> \<not> prefix ''gdal_translate'' c"
  by (auto dest!: main_commands simp: prefix_def)

lemma build_vrt_empty_raises:
  assumes "fst (run env (ls_cmd src)) = 0"
    and "filter_tarfiles (map (\<lambda>p. path_name (Path p)) (snd (run env (ls_cmd src)))) = []"
  shows "build_vrt env year src
         = ([ls_cmd src], Inl (Exception (''No .tar.gz files found under '' @ src_str src @ ''/''
                                          @ str_int year @ ''/tarfiles/.'')))"
proof -
  obtain status lines where r: "run env (ls_cmd src) = (status, lines)"
    by (cases "run env (ls_cmd src)")
  with assms show ?thesis
    by (simp add: build_vrt_def Let_def del: build_layers.simps)
qed

lemma listing_cmd_of_main:
  assumes "urlparse env (arg_src a) = Some u" and "check_src env a = (log, Inr src)"
  shows "ls_cmd src =
     (if is_object_store u
      then ''gsutil ls '' @ scheme u @ ''://'' @ netloc u @ ''/'' @ strip CHR ''/'' (path u)
           @ ''/'' @ str_int (arg_year a) @ ''/tarfiles/*.tar.gz''
      else ''ls '' @ path_str (path_div (Path (arg_src a)) (str_int (arg_year a) @ ''/tarfiles''))
           @ ''/*.tar.gz'')"
  using assms
  by (auto simp: check_src_def Let_def ls_cmd_def remote_src_def local_src_def split: if_splits)

lemma translate_cmd_values:
  "map translate_cmd [HH, HV, INC, DOY]
   = [''gdal_translate -ot Float32 HH_0.vrt HH_1.vrt'',
      ''gdal_translate -ot Float32 HV_0.vrt HV_1.vrt'',
      ''gdal_translate -ot Float32 INC_0.vrt INC_1.vrt'',
      ''gdal_translate -ot Int16 DOY_0.vrt DOY_1.vrt'']"
  by code_simp

text \<open>
  Claim C2 says that after each layer's mosaic a conversion command is executed, to
  Float32 for HH, HV and INC and to Int16 for DOY.  The code builds that string
  (\<open>translate_cmd\<close>) and never passes it to \<open>subprocess\<close>: a complete successful run
  over one archive executes the listing and the four \<open>gdalbuildvrt\<close> commands only.
\<close>

theorem conversion_never_executed:
  "main (host_local [''data/2015/tarfiles/N00E010_15_MOS_F02DAR.tar.gz'']) (demo_args ''data'')
   = ([''ls data/2015/tarfiles/*.tar.gz'',
       ''gdalbuildvrt -overwrite HH_0.vrt /vsitar/data/2015/tarfiles/N00E010_15_MOS_F02DAR.tar.gz/N00E010_15_sl_HH_F02DAR'',
       ''gdalbuildvrt -overwrite HV_0.vrt /vsitar/data/2015/tarfiles/N00E010_15_MOS_F02DAR.tar.gz/N00E010_15_sl_HV_F02DAR'',
       ''gdalbuildvrt -overwrite INC_0.vrt /vsitar/data/2015/tarfiles/N00E010_15_MOS_F02DAR.tar.gz/N00E010_15_linci_F02DAR'',
       ''gdalbuildvrt -overwrite DOY_0.vrt /vsitar/data/2015/tarfiles/N00E010_15_MOS_F02DAR.tar.gz/N00E010_15_date_F02DAR''],
      Inr ())"
  by code_simp

text \<open>
  Claim C3 says that \<open>build_vrt\<close> fails before any mosaic is built when no listed name
  matches the pattern.  With two listed names that both fail the pattern, the loop skips
  the second, the list is not empty, no exception is raised and four mosaics are built
  from the name that should have been removed.
\<close>

theorem unmatched_archives_reach_gdalbuildvrt:
  "\<not> tarfile_pattern_match ''README.tar.gz'' \<and> \<not> tarfile_pattern_match ''notes.tar.gz'' \<and>
   build_vrt (host_local [''data/2015/tarfiles/README.tar.gz'', ''data/2015/tarfiles/notes.tar.gz''])
      2015 (PathSrc (Path ''data/2015/tarfiles''))
   = ([''ls data/2015/tarfiles/*.tar.gz'',
       ''gdalbuildvrt -overwrite HH_0.vrt /vsitar/data/2015/tarfiles/notes.tar.gz/notes.tar.gz_15_sl_HH_F02DAR'',
       ''gdalbuildvrt -overwrite HV_0.vrt /vsitar/data/2015/tarfiles/notes.tar.gz/notes.tar.gz_15_sl_HV_F02DAR'',
       ''gdalbuildvrt -overwrite INC_0.vrt /vsitar/data/2015/tarfiles/notes.tar.gz/notes.tar.gz_15_linci_F02DAR'',
       ''gdalbuildvrt -overwrite DOY_0.vrt /vsitar/data/2015/tarfiles/notes.tar.gz/notes.tar.gz_15_date_F02DAR''],
      Inr ())"
  by code_simp

text \<open>
  Claim C7 says that the listing is of \<open>src/year/tarfiles/\<close>.  For a source that is a
  bare bucket, \<open>s3://bucket\<close>, the prefix is empty and the derived source has two
  slashes: the listing is of \<open>s3://bucket//2015/tarfiles/\<close>, while the member paths of
  the same run are under \<open>bucket/2015/tarfiles/\<close>.
\<close>

theorem bucket_root_listing:
  "main (host_bucket [''s3://bucket//2015/tarfiles/N00E010_15_MOS_F02DAR.tar.gz''])
        (demo_args ''s3://bucket'')
   = ([''gsutil ls s3://bucket//2015/tarfiles'',
       ''gsutil ls s3://bucket//2015/tarfiles/*.tar.gz'',
       ''gdalbuildvrt -overwrite HH_0.vrt /vsitar/vsis3/bucket/2015/tarfiles/N00E010_15_MOS_F02DAR.tar.gz/N00E010_15_sl_HH_F02DAR'',
       ''gdalbuildvrt -overwrite HV_0.vrt /vsitar/vsis3/bucket/2015/tarfiles/N00E010_15_MOS_F02DAR.tar.gz/N00E010_15_sl_HV_F02DAR'',
       ''gdalbuildvrt -overwrite INC_0.vrt /vsitar/vsis3/bucket/2015/tarfiles/N00E010_15_MOS_F02DAR.tar.gz/N00E010_15_linci_F02DAR'',
       ''gdalbuildvrt -overwrite DOY_0.vrt /vsitar/vsis3/bucket/2015/tarfiles/N00E010_15_MOS_F02DAR.tar.gz/N00E010_15_date_F02DAR''],
      Inr ())"
  by code_simp

section \<open>The entry point\<close>

lemma probe_not_listing: "''gsutil ls '' @ remote_src u y \<noteq> ls_cmd src"
proof (cases src)
  case (PathSrc p)
  then show ?thesis by (simp add: ls_cmd_def)
next
  case (StrSrc s)
  have l1: "last (remote_src u y) = CHR ''s''"
    by (simp add: remote_src_def)
  have l2: "last (s @ ''/*.tar.gz'') = CHR ''z''"
    by simp
  have "remote_src u y \<noteq> s @ ''/*.tar.gz''"
  proof
    assume "remote_src u y = s @ ''/*.tar.gz''"
    then have "last (remote_src u y) = last (s @ ''/*.tar.gz'')"
      by (rule arg_cong)
    with l1 l2 show False by simp
  qed
  with StrSrc show ?thesis by (simp add: ls_cmd_def)
qed

lemma probe_not_buildvrt: "''gsutil ls '' @ x \<noteq> buildvrt_cmd layer tifs"
  by (simp add: buildvrt_cmd_def)

lemma check_src_log:
  "fst (check_src env a) = [] \<or>
   (\<exists>u. fst (check_src env a) = [''gsutil ls '' @ remote_src u (arg_year a)])"
  by (auto simp: check_src_def Let_def split: option.splits)

lemma build_vrt_issues_listing_first:
  "\<exists>log. fst (build_vrt env year src) = ls_cmd src # log"
  by (auto simp: build_vrt_def Let_def split: prod.splits)

lemma check_src_local_missing:
  assumes "urlparse env (arg_src a) = Some u" and "\<not> is_object_store u"
    and "\<not> is_dir env (local_src (arg_src a) (arg_year a))"
  shows "check_src env a = ([], Inl (Exception (arg_src a @ '' is not a valid directory path'')))"
  using assms by (simp add: check_src_def)

lemma check_dst_local_missing:
  assumes "urlparse env (arg_dst a) = Some u" and "\<not> is_object_store u"
    and "\<not> is_dir env (local_dst (arg_dst a) (arg_year a))"
  shows "check_dst env a = ([], Inl (Exception (arg_dst a @ '' is not a valid directory path'')))"
  using assms by (simp add: check_dst_def)

lemma main_validation_failure:
  assumes "(\<exists>u. urlparse env (arg_src a) = Some u \<and> \<not> is_object_store u
               \<and> \<not> is_dir env (local_src (arg_src a) (arg_year a)))
         \<or> (\<exists>u. urlparse env (arg_dst a) = Some u \<and> \<not> is_object_store u
               \<and> \<not> is_dir env (local_dst (arg_dst a) (arg_year a)))"
  shows "\<exists>e. main env a = (fst (check_src env a), Inl e)"
  using assms
proof
  assume "\<exists>u. urlparse env (arg_src a) = Some u \<and> \<not> is_object_store u
               \<and> \<not> is_dir env (local_src (arg_src a) (arg_year a))"
  then obtain u where "urlparse env (arg_src a) = Some u" "\<not> is_object_store u"
    "\<not> is_dir env (local_src (arg_src a) (arg_year a))" by blast
  from check_src_local_missing [OF this] show ?thesis
    by (simp add: main_def)
next
  assume "\<exists>u. urlparse env (arg_dst a) = Some u \<and> \<not> is_object_store u
               \<and> \<not> is_dir env (local_dst (arg_dst a) (arg_year a))"
  then obtain u where "urlparse env (arg_dst a) = Some u" "\<not> is_object_store u"
    "\<not> is_dir env (local_dst (arg_dst a) (arg_year a))" by blast
  from check_dst_local_missing [OF this] show ?thesis
    by (cases "check_src env a") (auto simp: main_def split: sum.splits)
qed

text \<open>
  Claim C4.  When the source is a local path whose directory \<open>src/year/tarfiles\<close> does
  not exist, or the destination is a local path whose directory \<open>dst/year\<close> does not
  exist, \<open>main\<close> ends with an error and has executed nothing but what the source check
  executed: no archive listing and no \<open>gdalbuildvrt\<close> command, so \<open>build_vrt\<close>, which
  starts by executing the listing, was not called.
\<close>

theorem main_fails_before_build_vrt:
  assumes "(\<exists>u. urlparse env (arg_src a) = Some u \<and> \<not> is_object_store u
               \<and> \<not> is_dir env (local_src (arg_src a) (arg_year a)))
         \<or> (\<exists>u. urlparse env (arg_dst a) = Some u \<and> \<not> is_object_store u
               \<and> \<not> is_dir env (local_dst (arg_dst a) (arg_year a)))"
  shows "(\<exists>e. main env a = (fst (check_src env a), Inl e))
       \<and> (\<forall>src. ls_cmd src \<notin> set (fst (main env a)))
       \<and> (\<forall>layer tifs. buildvrt_cmd layer tifs \<notin> set (fst (main env a)))"
proof -
  from main_validation_failure [OF assms] obtain e
    where m: "main env a = (fst (check_src env a), Inl e)" by blast
  have probes: "\<exists>u. c = ''gsutil ls '' @ remote_src u (arg_year a)"
    if "c \<in> set (fst (check_src env a))" for c
    using that check_src_log [of env a] by auto
  have no_listing: "ls_cmd src \<notin> set (fst (check_src env a))" for src
  proof
    assume "ls_cmd src \<in> set (fst (check_src env a))"
    from probes [OF this] obtain u where "ls_cmd src = ''gsutil ls '' @ remote_src u (arg_year a)"
      by blast
    with probe_not_listing [of u "arg_year a" src] show False by simp
  qed
  have no_build: "buildvrt_cmd layer tifs \<notin> set (fst (check_src env a))" for layer tifs
  proof
    assume "buildvrt_cmd layer tifs \<in> set (fst (check_src env a))"
    from probes [OF this] obtain u
      where "buildvrt_cmd layer tifs = ''gsutil ls '' @ remote_src u (arg_year a)"
      by blast
    with probe_not_buildvrt [of "remote_src u (arg_year a)" layer tifs] show False by simp
  qed
  from m no_listing no_build show ?thesis by simp
qed

theorem main_fails_before_build_vrt_witness:
  "main host_no_dirs (demo_args ''data'')
     = ([], Inl (Exception ''data is not a valid directory path''))
   \<and> main host_no_dst (demo_args ''data'')
     = ([], Inl (Exception ''out is not a valid directory path''))"
proof
  let ?a = "demo_args ''data''"
  have u: "urlparse host_no_dirs (arg_src ?a) = Some \<lparr>scheme = [], netloc = [], path = ''data''\<rparr>"
    by (simp add: host_no_dirs_def demo_args_def urlparse_simple_def)
  have l: "\<not> is_object_store \<lparr>scheme = [], netloc = [], path = ''data''\<rparr>"
    by (simp add: is_object_store_def)
  have d: "\<not> is_dir host_no_dirs (local_src (arg_src ?a) (arg_year ?a))"
    by (simp add: host_no_dirs_def)
  have c: "check_src host_no_dirs ?a
           = ([], Inl (Exception ''data is not a valid directory path''))"
    using check_src_local_missing [OF u l d] by (simp add: demo_args_def)
  from u l d have
    "(\<exists>u. urlparse host_no_dirs (arg_src ?a) = Some u \<and> \<not> is_object_store u
          \<and> \<not> is_dir host_no_dirs (local_src (arg_src ?a) (arg_year ?a)))
   \<or> (\<exists>u. urlparse host_no_dirs (arg_dst ?a) = Some u \<and> \<not> is_object_store u
          \<and> \<not> is_dir host_no_dirs (local_dst (arg_dst ?a) (arg_year ?a)))"
    by blast
  from main_fails_before_build_vrt [OF this] obtain e
    where "main host_no_dirs ?a = (fst (check_src host_no_dirs ?a), Inl e)"
    by blast
  moreover have "snd (main host_no_dirs ?a)
                 = Inl (Exception ''data is not a valid directory path'')"
    using c by (simp add: main_def)
  ultimately show "main host_no_dirs ?a
                   = ([], Inl (Exception ''data is not a valid directory path''))"
    using c by simp
next
  let ?a = "demo_args ''data''"
  have u: "urlparse host_no_dst (arg_dst ?a) = Some \<lparr>scheme = [], netloc = [], path = ''out''\<rparr>"
    by (simp add: host_no_dst_def demo_args_def urlparse_simple_def)
  have l: "\<not> is_object_store \<lparr>scheme = [], netloc = [], path = ''out''\<rparr>"
    by (simp add: is_object_store_def)
  have d: "\<not> is_dir host_no_dst (local_dst (arg_dst ?a) (arg_year ?a))"
    by code_simp
  have c: "check_src host_no_dst ?a = ([], Inr (PathSrc (local_src ''data'' 2015)))"
    by code_simp
  have c': "check_dst host_no_dst ?a
            = ([], Inl (Exception ''out is not a valid directory path''))"
    using check_dst_local_missing [OF u l d] by (simp add: demo_args_def)
  from u l d have
    "(\<exists>u. urlparse host_no_dst (arg_src ?a) = Some u \<and> \<not> is_object_store u
          \<and> \<not> is_dir host_no_dst (local_src (arg_src ?a) (arg_year ?a)))
   \<or> (\<exists>u. urlparse host_no_dst (arg_dst ?a) = Some u \<and> \<not> is_object_store u
          \<and> \<not> is_dir host_no_dst (local_dst (arg_dst ?a) (arg_year ?a)))"
    by blast
  from main_fails_before_build_vrt [OF this] obtain e
    where "main host_no_dst ?a = (fst (check_src host_no_dst ?a), Inl e)"
    by blast
  moreover have "snd (main host_no_dst ?a)
                 = Inl (Exception ''out is not a valid directory path'')"
    using c c' by (simp add: main_def)
  ultimately show "main host_no_dst ?a
                   = ([], Inl (Exception ''out is not a valid directory path''))"
    using c by simp
qed

lemma check_src_tiles: "check_src env (a\<lparr>arg_tiles := t\<rparr>) = check_src env a"
  by (auto simp: check_src_def Let_def split: option.splits)

lemma check_dst_tiles: "check_dst env (a\<lparr>arg_tiles := t\<rparr>) = check_dst env a"
  by (auto simp: check_dst_def Let_def split: option.splits)

text \<open>
  Claim C8.  The tiles argument has no effect: two runs that differ in it only execute
  the same commands and end in the same way.
\<close>

theorem main_ignores_tiles: "main env (a\<lparr>arg_tiles := t\<rparr>) = main env a"
  by (auto simp: main_def check_src_tiles check_dst_tiles split: prod.splits sum.splits)

theorem main_ignores_tiles_witness:
  "main (host_local [''data/2015/tarfiles/N00E010_15_MOS_F02DAR.tar.gz''])
        ((demo_args ''data'')\<lparr>arg_tiles := ''other.geojson''\<rparr>)
   = main (host_local [''data/2015/tarfiles/N00E010_15_MOS_F02DAR.tar.gz'']) (demo_args ''data'')"
  by (rule main_ignores_tiles)

end
